theory Spec2Isabelle
  imports Main "HOL-Library.Word"
begin

unbundle bit_operations_syntax

section \<open>Constants and wire structures of \<^verbatim>\<open>include/udp.h\<close>\<close>

type_synonym byte = "8 word"
type_synonym u32 = "32 word"

definition FALSE :: byte where
  "FALSE = 0"

definition TRUE :: byte where
  "TRUE = 1"

definition MAX_BUFFER_SIZE :: nat where
  "MAX_BUFFER_SIZE = 8192"

definition DEFAULT_TIMEOUT :: int where
  "DEFAULT_TIMEOUT = 100000"

definition MAX_RETRIES :: int where
  "MAX_RETRIES = 3"

definition MAX_ACK_SIZE :: nat where
  "MAX_ACK_SIZE = 4"

definition SYN_ACK_DEFAULT_TIMEOUT_MILLISEC :: int where
  "SYN_ACK_DEFAULT_TIMEOUT_MILLISEC = 100000"

definition SYN_ACK_MAX_TIMEOUT_MILLISEC :: int where
  "SYN_ACK_MAX_TIMEOUT_MILLISEC = 1600"

text \<open>
  \<^verbatim>\<open>struct Header { uint32_t sequenceNumber; uint32_t messageLength; u_char lastPacket; }\<close>.
  \<^verbatim>\<open>HEADER_SIZE\<close> is \<^verbatim>\<open>sizeof(struct Header)\<close>: two 4-byte fields, one byte and three
  bytes of tail padding under the usual 4-byte alignment of \<^verbatim>\<open>uint32_t\<close>. No byte-order
  conversion is made anywhere in the sources; the object representation modelled here is
  the little-endian one.
\<close>

record Header =
  sequenceNumber :: u32
  messageLength :: u32
  lastPacket :: byte

definition HEADER_SIZE :: nat where
  "HEADER_SIZE = 12"

record SynAck =
  synack_sequenceNumber :: u32
  synack_ackNumber :: u32

subsection \<open>Object representations\<close>

definition store32 :: "u32 \<Rightarrow> byte list" where
  "store32 w = [ucast w, ucast (drop_bit 8 w), ucast (drop_bit 16 w), ucast (drop_bit 24 w)]"

fun load32 :: "byte list \<Rightarrow> u32" where
  "load32 (b0 # b1 # b2 # b3 # bs) =
     ucast b0 OR push_bit 8 (ucast b1) OR push_bit 16 (ucast b2) OR push_bit 24 (ucast b3)"
| "load32 bs = 0"

fun load8 :: "byte list \<Rightarrow> byte" where
  "load8 (b # bs) = b"
| "load8 [] = 0"

text \<open>
  Memory that the program reads without having written it (an uninitialised local array,
  the padding of a struct) is given by the environment as a function from offsets to
  bytes; \<open>bytes_from u a b\<close> are its bytes at the offsets \<open>a \<le> i < b\<close>.
\<close>

definition bytes_from :: "(nat \<Rightarrow> byte) \<Rightarrow> nat \<Rightarrow> nat \<Rightarrow> byte list" where
  "bytes_from u a b = map u [a..<b]"

text \<open>\<^verbatim>\<open>memcpy(packet, &header, HEADER_SIZE)\<close>: the three fields, then the padding.\<close>

definition encode_Header :: "Header \<Rightarrow> (nat \<Rightarrow> byte) \<Rightarrow> byte list" where
  "encode_Header h pad =
     store32 (sequenceNumber h) @ store32 (messageLength h) @ [lastPacket h] @ bytes_from pad 9 HEADER_SIZE"

text \<open>\<^verbatim>\<open>memcpy(&header, packet, HEADER_SIZE)\<close>: the fields of the first twelve bytes.\<close>

definition decode_Header :: "byte list \<Rightarrow> Header" where
  "decode_Header bs =
     \<lparr>sequenceNumber = load32 bs, messageLength = load32 (drop 4 bs), lastPacket = load8 (drop 8 bs)\<rparr>"

definition encode_SynAck :: "SynAck \<Rightarrow> byte list" where
  "encode_SynAck sa = store32 (synack_sequenceNumber sa) @ store32 (synack_ackNumber sa)"

definition decode_SynAck :: "byte list \<Rightarrow> SynAck" where
  "decode_SynAck bs = \<lparr>synack_sequenceNumber = load32 bs, synack_ackNumber = load32 (drop 4 bs)\<rparr>"

section \<open>The host's socket calls, as seen by one loop iteration\<close>

text \<open>
  \<^verbatim>\<open>recvfrom\<close> either delivers a datagram, or returns \<^verbatim>\<open>-1\<close> with \<^verbatim>\<open>errno\<close> equal to
  \<^verbatim>\<open>EAGAIN\<close>/\<^verbatim>\<open>EWOULDBLOCK\<close> (the receive timeout expired), or \<^verbatim>\<open>-1\<close> with another
  \<^verbatim>\<open>errno\<close>.
\<close>

datatype recv_result = RecvTimeout | RecvError | RecvData "byte list"

text \<open>
  What the host answers during one iteration of a loop of the program: whether
  \<^verbatim>\<open>setsockopt\<close> succeeds, the value of \<^verbatim>\<open>rand()\<close>, the previous content of the buffer
  handed to \<^verbatim>\<open>recvfrom\<close>, the outcome of \<^verbatim>\<open>recvfrom\<close>, and whether \<^verbatim>\<open>sendto\<close> succeeds.
  A loop reads only the fields of the calls it makes.
\<close>

record io_event =
  sockopt_ok :: bool
  rnd :: u32
  prior :: "nat \<Rightarrow> byte"
  recv :: recv_result
  sendto_ok :: bool

text \<open>
  \<^verbatim>\<open>recvfrom(sockfd, buf, n, ...)\<close> on a datagram \<open>d\<close>: the first \<open>min n (length d)\<close> bytes
  of the buffer are overwritten (a longer datagram is cut), the others keep their
  previous content. The call returns \<open>recv_size n d\<close>.
\<close>

definition recv_size :: "nat \<Rightarrow> byte list \<Rightarrow> nat" where
  "recv_size n d = min n (length d)"

definition recvfrom :: "nat \<Rightarrow> (nat \<Rightarrow> byte) \<Rightarrow> byte list \<Rightarrow> byte list" where
  "recvfrom n u d = take n d @ bytes_from u (recv_size n d) n"

datatype status = Running | Finished | Exited | Undefined

section \<open>The receiver's data phase: \<^verbatim>\<open>rrecv\<close> of \<^verbatim>\<open>receiver.c\<close>\<close>

text \<open>
  The state of the receive loop: the global \<^verbatim>\<open>_latestSequenceNumber\<close>, the calls of
  \<^verbatim>\<open>fwrite\<close> made so far (each with the sequence number of the packet it wrote), the
  data-acks handed to \<^verbatim>\<open>sendto\<close> so far, and how the loop stands: \<open>Running\<close>,
  \<open>Finished\<close> (left by \<^verbatim>\<open>break\<close>), \<open>Exited\<close> (\<^verbatim>\<open>exit(1)\<close>) or \<open>Undefined\<close> (a read
  beyond the receive buffer). The write-rate throttle only sleeps and is left out.
\<close>

record receiver =
  g_latestSequenceNumber :: u32
  fwrites :: "(u32 \<times> byte list) list"
  acks :: "u32 list"
  rstatus :: status

definition rrecv_init :: receiver where
  "rrecv_init = \<lparr>g_latestSequenceNumber = 0, fwrites = [], acks = [], rstatus = Running\<rparr>"

text \<open>The content of the destination file: what the calls of \<^verbatim>\<open>fwrite\<close> wrote, in order.\<close>

definition file_content :: "receiver \<Rightarrow> byte list" where
  "file_content r = concat (map snd (fwrites r))"

definition packetSize :: nat where
  "packetSize = MAX_BUFFER_SIZE + HEADER_SIZE"

text \<open>The part of the loop body after \<^verbatim>\<open>send_packet_ack\<close> (lines 268 to 285).\<close>

definition rrecv_deliver :: "receiver \<Rightarrow> Header \<Rightarrow> byte list \<Rightarrow> receiver" where
  "rrecv_deliver r header packet =
     (if MAX_BUFFER_SIZE < unat (messageLength header) then r\<lparr>rstatus := Undefined\<rparr>
      else
        let packet_data = take (unat (messageLength header)) (drop HEADER_SIZE packet)
        in if sequenceNumber header \<le> g_latestSequenceNumber r then r
           else
             let r1 = r\<lparr>fwrites := fwrites r @ [(sequenceNumber header, packet_data)]\<rparr>
             in if lastPacket header = TRUE then r1\<lparr>rstatus := Finished\<rparr>
                else r1\<lparr>g_latestSequenceNumber := sequenceNumber header\<rparr>)"

text \<open>One iteration of \<^verbatim>\<open>while (TRUE)\<close> in \<^verbatim>\<open>rrecv\<close> (lines 248 to 297).\<close>

definition rrecv_step :: "receiver \<Rightarrow> io_event \<Rightarrow> receiver" where
  "rrecv_step r ev =
     (case recv ev of
        RecvTimeout \<Rightarrow> r\<lparr>rstatus := Exited\<rparr>
      | RecvError \<Rightarrow> r\<lparr>rstatus := Exited\<rparr>
      | RecvData d \<Rightarrow>
          if recv_size packetSize d = 0 then r
          else
            let packet = recvfrom packetSize (prior ev) d;
                header = decode_Header packet
            in if \<not> sendto_ok ev then r\<lparr>rstatus := Exited\<rparr>
               else rrecv_deliver (r\<lparr>acks := acks r @ [sequenceNumber header]\<rparr>) header packet)"

fun rrecv_loop :: "receiver \<Rightarrow> io_event list \<Rightarrow> receiver" where
  "rrecv_loop r [] = r"
| "rrecv_loop r (ev # evs) =
     (if rstatus r = Running then rrecv_loop (rrecv_step r ev) evs else r)"

section \<open>The sender's data phase: \<^verbatim>\<open>checkAck\<close> and \<^verbatim>\<open>rsend\<close> of \<^verbatim>\<open>sender.c\<close>\<close>

text \<open>
  The state of \<^verbatim>\<open>rsend\<close> after the handshake: the global \<^verbatim>\<open>_sequenceNumber\<close>, the
  locals \<^verbatim>\<open>totalBytesSent\<close>, \<^verbatim>\<open>packet\<close>, \<^verbatim>\<open>timeout\<close> and \<^verbatim>\<open>retries\<close>, the read position
  of the source file, the datagrams handed to \<^verbatim>\<open>sendto\<close> so far, and how the loop stands.
  \<^verbatim>\<open>_sequenceNumber\<close> is an \<^verbatim>\<open>int\<close> that the program stores into and compares with
  \<^verbatim>\<open>uint32_t\<close> values; it is kept as a 32-bit word. \<^verbatim>\<open>timeout\<close> and \<^verbatim>\<open>retries\<close> are \<^verbatim>\<open>int\<close>s,
  kept as integers: this is exact as long as fewer than fifteen failures follow one
  another (\<open>100000\<close> doubled fifteen times passes \<open>2 ^ 31\<close>, where the C arithmetic is
  no longer defined), which holds in every run evaluated below. Opening the socket and
  the file, which precede the handshake, are left out.
\<close>

record sender =
  g_sequenceNumber :: u32
  totalBytesSent :: nat
  file_pos :: nat
  packet :: "byte list"
  timeout :: int
  retries :: int
  sent :: "byte list list"
  sstatus :: status

text \<open>
  \<^verbatim>\<open>checkAck\<close> (lines 173 to 220). A receive timeout is counted against \<^verbatim>\<open>MAX_RETRIES\<close>;
  an acknowledgement whose number differs from \<^verbatim>\<open>*sequenceNumber\<close> doubles the timeout and
  increments \<^verbatim>\<open>*retries\<close> with no test; a matching one advances. The four bytes compared
  are those of the local array \<^verbatim>\<open>ack\<close> after \<^verbatim>\<open>recvfrom\<close>.
\<close>

definition checkAck :: "sender \<Rightarrow> nat \<Rightarrow> io_event \<Rightarrow> sender" where
  "checkAck s bytesSentThisTime ev =
     (case recv ev of
        RecvTimeout \<Rightarrow>
          if retries s < MAX_RETRIES
          then s\<lparr>timeout := timeout s * 2, retries := retries s + 1\<rparr>
          else s\<lparr>sstatus := Exited\<rparr>
      | RecvError \<Rightarrow> s\<lparr>sstatus := Exited\<rparr>
      | RecvData d \<Rightarrow>
          let receivedSequenceNumber = load32 (recvfrom MAX_ACK_SIZE (prior ev) d)
          in if receivedSequenceNumber \<noteq> g_sequenceNumber s
             then s\<lparr>timeout := timeout s * 2, retries := retries s + 1\<rparr>
             else s\<lparr>totalBytesSent := totalBytesSent s + (bytesSentThisTime - HEADER_SIZE),
                    g_sequenceNumber := g_sequenceNumber s + 1,
                    retries := 0,
                    timeout := DEFAULT_TIMEOUT\<rparr>)"

text \<open>
  The branch \<^verbatim>\<open>if (retries == 0)\<close> of the send loop (lines 303 to 326): \<^verbatim>\<open>fread\<close> takes up
  to \<^verbatim>\<open>MAX_BUFFER_SIZE\<close> bytes from the read position, whatever the transfer target; they
  are copied behind the header into \<^verbatim>\<open>packet\<close>, whose other bytes keep their content.
\<close>

definition rsend_read :: "byte list \<Rightarrow> nat \<Rightarrow> (nat \<Rightarrow> byte) \<Rightarrow> sender \<Rightarrow> sender" where
  "rsend_read src bytesToTransfer pad s =
     (let packet_data = take MAX_BUFFER_SIZE (drop (file_pos s) src);
          bytesRead = length packet_data;
          header = \<lparr>sequenceNumber = g_sequenceNumber s,
                    messageLength = of_nat bytesRead,
                    lastPacket = (if totalBytesSent s + MAX_BUFFER_SIZE > bytesToTransfer
                                  then TRUE else FALSE)\<rparr>
      in s\<lparr>file_pos := file_pos s + bytesRead,
           packet := encode_Header header pad @ packet_data
                       @ drop (HEADER_SIZE + bytesRead) (packet s)\<rparr>)"

text \<open>
  One iteration of \<^verbatim>\<open>while (totalBytesSent < bytesToTransfer)\<close> (lines 295 to 335).
  \<^verbatim>\<open>sendto\<close> is given the length \<^verbatim>\<open>HEADER_SIZE + MAX_BUFFER_SIZE\<close> and, for a datagram
  socket, returns that length when it succeeds.
\<close>

definition rsend_step :: "byte list \<Rightarrow> nat \<Rightarrow> (nat \<Rightarrow> byte) \<Rightarrow> sender \<Rightarrow> io_event \<Rightarrow> sender" where
  "rsend_step src bytesToTransfer pad s ev =
     (if \<not> sockopt_ok ev then s\<lparr>sstatus := Exited\<rparr>
      else
        let s1 = (if retries s = 0 then rsend_read src bytesToTransfer pad s else s)
        in if \<not> sendto_ok ev then s1\<lparr>sstatus := Exited\<rparr>
           else checkAck (s1\<lparr>sent := sent s1 @ [take (HEADER_SIZE + MAX_BUFFER_SIZE) (packet s1)]\<rparr>)
                  (HEADER_SIZE + MAX_BUFFER_SIZE) ev)"

text \<open>
  The loop, run on the answers of the host for its successive iterations. When they are
  used up and the loop condition still holds, the state is returned as it stands
  (\<open>Running\<close>).
\<close>

fun rsend_loop :: "byte list \<Rightarrow> nat \<Rightarrow> (nat \<Rightarrow> byte) \<Rightarrow> sender \<Rightarrow> io_event list \<Rightarrow> sender" where
  "rsend_loop src bytesToTransfer pad s [] =
     (if sstatus s = Running \<and> \<not> totalBytesSent s < bytesToTransfer
      then s\<lparr>sstatus := Finished\<rparr> else s)"
| "rsend_loop src bytesToTransfer pad s (ev # evs) =
     (if sstatus s \<noteq> Running then s
      else if totalBytesSent s < bytesToTransfer
        then rsend_loop src bytesToTransfer pad (rsend_step src bytesToTransfer pad s ev) evs
        else s\<lparr>sstatus := Finished\<rparr>)"

text \<open>
  The locals as initialised in lines 282 to 291; \<^verbatim>\<open>packet\<close> is not initialised and holds
  whatever the stack held (\<open>u\<close>); \<open>isn\<close> is the value \<^verbatim>\<open>establish_connection\<close> left in
  \<^verbatim>\<open>_sequenceNumber\<close>. \<open>pad\<close> stands for the padding bytes of the local \<^verbatim>\<open>header\<close>.
\<close>

definition rsend_init :: "(nat \<Rightarrow> byte) \<Rightarrow> u32 \<Rightarrow> sender" where
  "rsend_init u isn =
     \<lparr>g_sequenceNumber = isn, totalBytesSent = 0, file_pos = 0,
      packet = bytes_from u 0 (MAX_BUFFER_SIZE + HEADER_SIZE),
      timeout = DEFAULT_TIMEOUT, retries = 0, sent = [], sstatus = Running\<rparr>"

text \<open>The data phase of \<^verbatim>\<open>rsend\<close>, with the cap of the target at the file size (lines 274 to 277).\<close>

definition rsend_data ::
  "byte list \<Rightarrow> nat \<Rightarrow> (nat \<Rightarrow> byte) \<Rightarrow> (nat \<Rightarrow> byte) \<Rightarrow> u32 \<Rightarrow> io_event list \<Rightarrow> sender" where
  "rsend_data src bytesToTransfer pad u isn evs =
     rsend_loop src (if length src < bytesToTransfer then length src else bytesToTransfer) pad
       (rsend_init u isn) evs"




section \<open>The three-way handshake: \<^verbatim>\<open>establish_connection\<close> of both programs\<close>

text \<open>
  The update made after a receive timeout in all three handshake loops:
  \<^verbatim>\<open>if (timeout < SYN_ACK_MAX_TIMEOUT_MILLISEC) { timeout *= 2; }\<close>; \<open>backoff_to\<close> is the
  same update with the ceiling as a parameter.
\<close>

definition backoff_to :: "int \<Rightarrow> int \<Rightarrow> int" where
  "backoff_to mx t = (if t < mx then t * 2 else t)"

definition backoff :: "int \<Rightarrow> int" where
  "backoff t = backoff_to SYN_ACK_MAX_TIMEOUT_MILLISEC t"

text \<open>\<^verbatim>\<open>sizeof(struct Syn)\<close>, \<^verbatim>\<open>sizeof(struct Ack)\<close> and \<^verbatim>\<open>sizeof(struct SynAck)\<close>.\<close>

definition SYN_SIZE :: nat where
  "SYN_SIZE = 4"

definition ACK_SIZE :: nat where
  "ACK_SIZE = 4"

definition SYNACK_SIZE :: nat where
  "SYNACK_SIZE = 8"

text \<open>
  \<^verbatim>\<open>establish_connection\<close> of \<^verbatim>\<open>sender.c\<close> (lines 92 to 153). Every iteration draws a new
  \<^verbatim>\<open>rand()\<close>, stores it in \<^verbatim>\<open>_sequenceNumber\<close> and sends it as Syn; a datagram of at least
  eight bytes is taken as the SynAck and answered by an Ack carrying
  \<^verbatim>\<open>syn_ack.sequenceNumber + 1\<close>; the results of \<^verbatim>\<open>sendto\<close> are not looked at. \<open>Finished\<close>
  stands for the return of the function.
\<close>

record initiator =
  i_sequenceNumber :: u32
  i_timeout :: int
  i_sent :: "byte list list"
  i_status :: status

definition initiator_init :: initiator where
  "initiator_init =
     \<lparr>i_sequenceNumber = 0, i_timeout = SYN_ACK_DEFAULT_TIMEOUT_MILLISEC, i_sent = [], i_status = Running\<rparr>"

fun sender_establish_connection :: "initiator \<Rightarrow> io_event list \<Rightarrow> initiator" where
  "sender_establish_connection c [] = c"
| "sender_establish_connection c (ev # evs) =
     (if \<not> sockopt_ok ev then c\<lparr>i_status := Exited\<rparr>
      else
        let c1 = c\<lparr>i_sequenceNumber := rnd ev, i_sent := i_sent c @ [store32 (rnd ev)]\<rparr>
        in case recv ev of
             RecvData d \<Rightarrow>
               if 0 < recv_size SYNACK_SIZE d \<and> recv_size SYNACK_SIZE d = SYNACK_SIZE
               then
                 let syn_ack = decode_SynAck (recvfrom SYNACK_SIZE (prior ev) d)
                 in c1\<lparr>i_sent := i_sent c1 @ [store32 (synack_sequenceNumber syn_ack + 1)],
                       i_status := Finished\<rparr>
               else sender_establish_connection c1 evs
           | RecvTimeout \<Rightarrow>
               sender_establish_connection (c1\<lparr>i_timeout := backoff (i_timeout c1)\<rparr>) evs
           | RecvError \<Rightarrow> c1\<lparr>i_status := Exited\<rparr>)"

text \<open>
  \<^verbatim>\<open>establish_connection\<close> of \<^verbatim>\<open>receiver.c\<close> (lines 90 to 183): the outer loop waits for
  a Syn, the inner loop (\<open>receiver_await_ack\<close>, lines 123 to 161) sends the SynAck and
  waits for an Ack whose number equals \<^verbatim>\<open>syn_ack.ackNumber\<close>.
\<close>

record responder =
  r_timeout :: int
  r_sent :: "byte list list"
  r_status :: status

definition responder_init :: responder where
  "responder_init = \<lparr>r_timeout = SYN_ACK_DEFAULT_TIMEOUT_MILLISEC, r_sent = [], r_status = Running\<rparr>"

fun receiver_await_ack :: "SynAck \<Rightarrow> responder \<Rightarrow> io_event list \<Rightarrow> responder" where
  "receiver_await_ack syn_ack c [] = c"
| "receiver_await_ack syn_ack c (ev # evs) =
     (let c1 = c\<lparr>r_sent := r_sent c @ [encode_SynAck syn_ack]\<rparr>
      in case recv ev of
           RecvData d \<Rightarrow>
             if 0 < recv_size ACK_SIZE d
             then
               if load32 (recvfrom ACK_SIZE (prior ev) d) = synack_ackNumber syn_ack
               then c1\<lparr>r_status := Finished\<rparr>
               else receiver_await_ack syn_ack c1 evs
             else receiver_await_ack syn_ack c1 evs
         | RecvTimeout \<Rightarrow> receiver_await_ack syn_ack (c1\<lparr>r_timeout := backoff (r_timeout c1)\<rparr>) evs
         | RecvError \<Rightarrow> c1\<lparr>r_status := Exited\<rparr>)"

fun receiver_establish_connection :: "responder \<Rightarrow> io_event list \<Rightarrow> responder" where
  "receiver_establish_connection c [] = c"
| "receiver_establish_connection c (ev # evs) =
     (if \<not> sockopt_ok ev then c\<lparr>r_status := Exited\<rparr>
      else case recv ev of
             RecvData d \<Rightarrow>
               if 0 < recv_size SYN_SIZE d
               then
                 let syn_ack = \<lparr>synack_sequenceNumber = rnd ev,
                                synack_ackNumber = load32 (recvfrom SYN_SIZE (prior ev) d) + 1\<rparr>
                 in receiver_await_ack syn_ack (c\<lparr>r_timeout := SYN_ACK_DEFAULT_TIMEOUT_MILLISEC\<rparr>) evs
               else receiver_establish_connection c evs
           | RecvTimeout \<Rightarrow> receiver_establish_connection (c\<lparr>r_timeout := backoff (r_timeout c)\<rparr>) evs
           | RecvError \<Rightarrow> c\<lparr>r_status := Exited\<rparr>)"

text \<open>
  The two programs: the handshake, then the data phase. The receiver enters its data
  phase with \<open>rrecv_init\<close>: \<^verbatim>\<open>_latestSequenceNumber\<close> is not assigned by the handshake.
\<close>

definition rsend ::
  "byte list \<Rightarrow> nat \<Rightarrow> (nat \<Rightarrow> byte) \<Rightarrow> (nat \<Rightarrow> byte) \<Rightarrow> io_event list \<Rightarrow> io_event list
     \<Rightarrow> initiator \<times> sender option" where
  "rsend src bytesToTransfer pad u hs_evs evs =
     (let c = sender_establish_connection initiator_init hs_evs
      in (c, if i_status c = Finished
             then Some (rsend_data src bytesToTransfer pad u (i_sequenceNumber c) evs)
             else None))"

definition rrecv :: "io_event list \<Rightarrow> io_event list \<Rightarrow> responder \<times> receiver option" where
  "rrecv hs_evs evs =
     (let c = receiver_establish_connection responder_init hs_evs
      in (c, if r_status c = Finished then Some (rrecv_loop rrecv_init evs) else None))"

section \<open>Scenarios and invariants\<close>

text \<open>
  Iterations in which every call of the host succeeds and the receive buffer held zeros:
  \<open>delivery d\<close> receives the datagram \<open>d\<close>, \<open>ack_timeout\<close> runs into the receive timeout,
  \<open>handshake_event r x\<close> draws \<open>r\<close> from \<^verbatim>\<open>rand()\<close> and receives \<open>x\<close>.
  \<open>data_packet n payload l\<close> is the datagram of full size that carries the header
  \<open>(n, length payload, l)\<close>, the payload and zeros behind it.
\<close>

definition delivery :: "byte list \<Rightarrow> io_event" where
  "delivery d = \<lparr>sockopt_ok = True, rnd = 0, prior = (\<lambda>i. 0), recv = RecvData d, sendto_ok = True\<rparr>"

definition data_packet :: "u32 \<Rightarrow> byte list \<Rightarrow> byte \<Rightarrow> byte list" where
  "data_packet n payload l =
     encode_Header \<lparr>sequenceNumber = n, messageLength = of_nat (length payload), lastPacket = l\<rparr> (\<lambda>i. 0)
       @ payload @ replicate (MAX_BUFFER_SIZE - length payload) 0"

definition ack_timeout :: io_event where
  "ack_timeout = \<lparr>sockopt_ok = True, rnd = 0, prior = (\<lambda>i. 0), recv = RecvTimeout, sendto_ok = True\<rparr>"

definition handshake_event :: "u32 \<Rightarrow> recv_result \<Rightarrow> io_event" where
  "handshake_event r x = \<lparr>sockopt_ok = True, rnd = r, prior = (\<lambda>i. 0), recv = x, sendto_ok = True\<rparr>"


text \<open>The send buffer and every datagram sent have the size given to \<^verbatim>\<open>sendto\<close>.\<close>

definition sender_inv :: "sender \<Rightarrow> bool" where
  "sender_inv s \<longleftrightarrow> length (packet s) = HEADER_SIZE + MAX_BUFFER_SIZE
      \<and> list_all (\<lambda>d. length d = HEADER_SIZE + MAX_BUFFER_SIZE) (sent s)"

text \<open>
  In the send loop the timeout is the default doubled once for each retry counted.
\<close>

definition retry_inv :: "sender \<Rightarrow> bool" where
  "retry_inv s \<longleftrightarrow> 0 \<le> retries s \<and> timeout s = DEFAULT_TIMEOUT * 2 ^ nat (retries s)"

section \<open>Properties of the codec\<close>

lemma load32_store32: "load32 (store32 w @ bs) = w"
proof -
  have "(ucast (ucast w :: byte) :: u32) OR push_bit 8 (ucast (ucast (drop_bit 8 w) :: byte))
        OR push_bit 16 (ucast (ucast (drop_bit 16 w) :: byte))
        OR push_bit 24 (ucast (ucast (drop_bit 24 w) :: byte)) = w"
  proof (rule bit_word_eqI)
    fix n assume n: "n < LENGTH(32)"
    consider "n < 8" | "8 \<le> n" "n < 16" | "16 \<le> n" "n < 24" | "24 \<le> n" "n < 32"
      using n by fastforce
    then show "bit (ucast (ucast w :: byte) OR push_bit 8 (ucast (ucast (drop_bit 8 w) :: byte))
        OR push_bit 16 (ucast (ucast (drop_bit 16 w) :: byte))
        OR push_bit 24 (ucast (ucast (drop_bit 24 w) :: byte)) :: u32) n = bit w n"
      by cases (auto simp add: bit_simps)
  qed
  then show ?thesis by (simp add: store32_def)
qed

lemma length_store32: "length (store32 w) = 4"
  by (simp add: store32_def)

lemma length_bytes_from: "length (bytes_from u a b) = b - a"
  by (simp add: bytes_from_def)

lemma bytes_from_const: "bytes_from (\<lambda>i. c) a b = replicate (b - a) c"
  by (simp add: bytes_from_def map_replicate_const)

lemma length_encode_Header: "length (encode_Header h pad) = HEADER_SIZE"
  by (simp add: encode_Header_def length_store32 length_bytes_from HEADER_SIZE_def)

lemma decode_encode_Header: "decode_Header (encode_Header h pad @ bs) = h"
proof -
  have 1: "load32 (encode_Header h pad @ bs) = sequenceNumber h"
    by (simp add: encode_Header_def load32_store32)
  have 2: "drop 4 (encode_Header h pad @ bs)
             = store32 (messageLength h) @ ([lastPacket h] @ bytes_from pad 9 HEADER_SIZE @ bs)"
    by (simp add: encode_Header_def length_store32)
  have 3: "drop 8 (encode_Header h pad @ bs) = lastPacket h # (bytes_from pad 9 HEADER_SIZE @ bs)"
    by (simp add: encode_Header_def length_store32)
  show ?thesis
    unfolding decode_Header_def 1 2 3 by (simp add: load32_store32)
qed

lemma length_recvfrom: "length (recvfrom n u d) = n"
  by (simp add: recvfrom_def recv_size_def length_bytes_from)

lemma recvfrom_full: "n \<le> length d \<Longrightarrow> recvfrom n u d = take n d"
  by (simp add: recvfrom_def recv_size_def bytes_from_def)

section \<open>The receive loop\<close>

lemma recv_size_zero: "recv_size packetSize d = 0 \<longleftrightarrow> d = []"
  by (cases d) (simp_all add: recv_size_def packetSize_def MAX_BUFFER_SIZE_def HEADER_SIZE_def)

lemma rrecv_frame:
  assumes "length payload = unat (messageLength h)" "length payload \<le> MAX_BUFFER_SIZE"
  shows "decode_Header (recvfrom packetSize u (encode_Header h pad @ payload @ tail)) = h"
    and "take (unat (messageLength h)) (drop HEADER_SIZE (recvfrom packetSize u (encode_Header h pad @ payload @ tail))) = payload"
proof -
  have t: "take packetSize (encode_Header h pad @ payload @ tail)
             = encode_Header h pad @ take MAX_BUFFER_SIZE (payload @ tail)"
    by (simp add: packetSize_def length_encode_Header)
  show "decode_Header (recvfrom packetSize u (encode_Header h pad @ payload @ tail)) = h"
    unfolding recvfrom_def t by (simp add: decode_encode_Header)
  have "drop HEADER_SIZE (recvfrom packetSize u (encode_Header h pad @ payload @ tail))
          = take MAX_BUFFER_SIZE (payload @ tail)
            @ bytes_from u (recv_size packetSize (encode_Header h pad @ payload @ tail)) packetSize"
    unfolding recvfrom_def t by (simp add: length_encode_Header)
  then show "take (unat (messageLength h)) (drop HEADER_SIZE (recvfrom packetSize u (encode_Header h pad @ payload @ tail))) = payload"
    using assms by simp
qed

lemma rrecv_step_acks:
  assumes "recv ev = RecvData d" "d \<noteq> []" "sendto_ok ev"
  shows "acks (rrecv_step r ev) = acks r @ [sequenceNumber (decode_Header (recvfrom packetSize (prior ev) d))]"
  using assms by (simp add: rrecv_step_def recv_size_zero rrecv_deliver_def Let_def)

lemma rrecv_deliver_writes:
  "\<exists>ws. fwrites (rrecv_deliver r h p) = fwrites r @ ws \<and> (\<forall>w\<in>set ws. g_latestSequenceNumber r < fst w)"
  by (simp add: rrecv_deliver_def Let_def not_le)

lemma rrecv_deliver_latest: "g_latestSequenceNumber r \<le> g_latestSequenceNumber (rrecv_deliver r h p)"
  by (auto simp add: rrecv_deliver_def Let_def not_le)

lemma rrecv_step_writes:
  "\<exists>ws. fwrites (rrecv_step r ev) = fwrites r @ ws \<and> (\<forall>w\<in>set ws. g_latestSequenceNumber r < fst w)"
proof (cases "recv ev")
  case (RecvData d)
  then show ?thesis
    using rrecv_deliver_writes [of "r\<lparr>acks := acks r @ [sequenceNumber (decode_Header (recvfrom packetSize (prior ev) d))]\<rparr>"
        "decode_Header (recvfrom packetSize (prior ev) d)" "recvfrom packetSize (prior ev) d"]
    by (simp add: rrecv_step_def Let_def)
qed (simp_all add: rrecv_step_def)

lemma rrecv_step_latest: "g_latestSequenceNumber r \<le> g_latestSequenceNumber (rrecv_step r ev)"
proof (cases "recv ev")
  case (RecvData d)
  then show ?thesis
    using rrecv_deliver_latest [of "r\<lparr>acks := acks r @ [sequenceNumber (decode_Header (recvfrom packetSize (prior ev) d))]\<rparr>"
        "decode_Header (recvfrom packetSize (prior ev) d)" "recvfrom packetSize (prior ev) d"]
    by (simp add: rrecv_step_def Let_def)
qed (simp_all add: rrecv_step_def)

lemma rrecv_loop_writes:
  "\<exists>ws. fwrites (rrecv_loop r evs) = fwrites r @ ws \<and> (\<forall>w\<in>set ws. g_latestSequenceNumber r < fst w)"
proof (induction evs arbitrary: r)
  case Nil
  show ?case by simp
next
  case (Cons ev evs)
  show ?case
  proof (cases "rstatus r = Running")
    case False
    then show ?thesis by simp
  next
    case True
    obtain ws1 where 1: "fwrites (rrecv_step r ev) = fwrites r @ ws1"
      "\<forall>w\<in>set ws1. g_latestSequenceNumber r < fst w"
      using rrecv_step_writes by blast
    obtain ws2 where 2: "fwrites (rrecv_loop (rrecv_step r ev) evs) = fwrites (rrecv_step r ev) @ ws2"
      "\<forall>w\<in>set ws2. g_latestSequenceNumber (rrecv_step r ev) < fst w"
      using Cons.IH by blast
    have "\<forall>w\<in>set (ws1 @ ws2). g_latestSequenceNumber r < fst w"
      using 1(2) 2(2) rrecv_step_latest [of r ev] by auto
    then show ?thesis using True 1(1) 2(1) by auto
  qed
qed

lemma rrecv_loop_append: "rrecv_loop r (xs @ ys) = rrecv_loop (rrecv_loop r xs) ys"
proof (induction xs arbitrary: r)
  case Nil
  show ?case by simp
next
  case (Cons x xs)
  show ?case
  proof (cases "rstatus r = Running")
    case True
    then show ?thesis using Cons.IH by simp
  next
    case False
    then show ?thesis by (cases ys) simp_all
  qed
qed

lemma rrecv_deliver_inv:
  assumes "\<forall>w\<in>set (fwrites r). fst w \<le> g_latestSequenceNumber r"
    and "rstatus (rrecv_deliver r h p) = Running"
  shows "\<forall>w\<in>set (fwrites (rrecv_deliver r h p)). fst w \<le> g_latestSequenceNumber (rrecv_deliver r h p)"
  using assms by (auto simp add: rrecv_deliver_def Let_def not_le split: if_splits)

lemma rrecv_step_inv:
  assumes "\<forall>w\<in>set (fwrites r). fst w \<le> g_latestSequenceNumber r"
    and "rstatus (rrecv_step r ev) = Running"
  shows "\<forall>w\<in>set (fwrites (rrecv_step r ev)). fst w \<le> g_latestSequenceNumber (rrecv_step r ev)"
proof (cases "recv ev")
  case (RecvData d)
  show ?thesis
  proof (cases "recv_size packetSize d = 0 \<or> \<not> sendto_ok ev")
    case True
    then show ?thesis using assms RecvData by (auto simp add: rrecv_step_def Let_def)
  next
    case False
    then show ?thesis
      using assms RecvData
        rrecv_deliver_inv [of "r\<lparr>acks := acks r @ [sequenceNumber (decode_Header (recvfrom packetSize (prior ev) d))]\<rparr>"
          "decode_Header (recvfrom packetSize (prior ev) d)" "recvfrom packetSize (prior ev) d"]
      by (simp add: rrecv_step_def Let_def)
  qed
qed (use assms in \<open>simp_all add: rrecv_step_def\<close>)

lemma rrecv_loop_inv:
  assumes "\<forall>w\<in>set (fwrites r). fst w \<le> g_latestSequenceNumber r"
    and "rstatus (rrecv_loop r evs) = Running"
  shows "\<forall>w\<in>set (fwrites (rrecv_loop r evs)). fst w \<le> g_latestSequenceNumber (rrecv_loop r evs)"
  using assms
proof (induction evs arbitrary: r)
  case Nil
  then show ?case by simp
next
  case (Cons ev evs)
  show ?case
  proof (cases "rstatus r = Running")
    case False
    then show ?thesis using Cons.prems by simp
  next
    case True
    have run: "rstatus (rrecv_loop (rrecv_step r ev) evs) = Running"
      using True Cons.prems(2) by simp
    have "rstatus (rrecv_step r ev) = Running"
    proof (rule ccontr)
      assume "rstatus (rrecv_step r ev) \<noteq> Running"
      then have "rrecv_loop (rrecv_step r ev) evs = rrecv_step r ev" by (cases evs) simp_all
      with run \<open>rstatus (rrecv_step r ev) \<noteq> Running\<close> show False by simp
    qed
    then have "\<forall>w\<in>set (fwrites (rrecv_step r ev)). fst w \<le> g_latestSequenceNumber (rrecv_step r ev)"
      using rrecv_step_inv Cons.prems(1) by blast
    then show ?thesis using Cons.IH run True by simp
  qed
qed

lemma unat_of_nat_payload: "n \<le> MAX_BUFFER_SIZE \<Longrightarrow> unat (of_nat n :: u32) = n"
proof -
  assume "n \<le> MAX_BUFFER_SIZE"
  then have "n < 2 ^ LENGTH(32)" by (simp add: MAX_BUFFER_SIZE_def)
  then show ?thesis by (simp only: unat_of_nat mod_less)
qed

lemma load32_zeros: "load32 (replicate n 0) = 0"
proof (cases "4 \<le> n")
  case True
  define m where "m = n - 4"
  have "n = Suc (Suc (Suc (Suc m)))" using True by (simp add: m_def)
  then show ?thesis by simp
next
  case False
  then consider "n = 0" | "n = Suc 0" | "n = Suc (Suc 0)" | "n = Suc (Suc (Suc 0))" by linarith
  then show ?thesis by cases simp_all
qed

lemma load32_byte_zeros: "3 \<le> n \<Longrightarrow> load32 (b # replicate n 0) = ucast b"
proof -
  assume 3: "3 \<le> n"
  define m where "m = n - 3"
  have "n = Suc (Suc (Suc m))" using 3 by (simp add: m_def)
  then show ?thesis by simp
qed

lemma load8_zeros: "load8 (replicate n 0) = 0"
  by (cases n) simp_all

lemma data_packet_not_Nil: "data_packet n payload l \<noteq> []"
  by (simp add: data_packet_def encode_Header_def store32_def)

lemma rrecv_step_data_packet:
  assumes "length payload \<le> MAX_BUFFER_SIZE"
  shows "rrecv_step r (delivery (data_packet n payload l)) =
     (if n \<le> g_latestSequenceNumber r then r\<lparr>acks := acks r @ [n]\<rparr>
      else if l = TRUE
        then r\<lparr>acks := acks r @ [n], fwrites := fwrites r @ [(n, payload)], rstatus := Finished\<rparr>
        else r\<lparr>acks := acks r @ [n], fwrites := fwrites r @ [(n, payload)],
                g_latestSequenceNumber := n\<rparr>)"
proof -
  let ?h = "\<lparr>sequenceNumber = n, messageLength = of_nat (length payload), lastPacket = l\<rparr>"
  have len: "length payload = unat (messageLength ?h)"
    using assms by (simp add: unat_of_nat_payload)
  have 1: "decode_Header (recvfrom packetSize (\<lambda>i. 0) (data_packet n payload l)) = ?h"
    unfolding data_packet_def by (rule rrecv_frame(1) [OF len assms])
  have 2: "take (length payload) (drop HEADER_SIZE (recvfrom packetSize (\<lambda>i. 0) (data_packet n payload l))) = payload"
    using rrecv_frame(2) [OF len assms, of "\<lambda>i. 0" "\<lambda>i. 0"] len unfolding data_packet_def by simp
  show ?thesis
    using assms
    by (simp add: rrecv_step_def delivery_def recv_size_zero data_packet_not_Nil 1 2
        rrecv_deliver_def Let_def unat_of_nat_payload)
qed

text \<open>
  Claim C10. The receiver starts with \<^verbatim>\<open>_latestSequenceNumber = 0\<close>, a constant that does not
  depend on the handshake. A datagram whose header carries the sequence number 0 is
  acknowledged (the data-ack 0 is sent) and its payload is not written, in whatever state
  the receiver is; no run of the receive loop ever writes a payload under sequence
  number 0.
\<close>
theorem receiver_discards_sequence_zero:
  assumes "recv ev = RecvData d" and "d \<noteq> []" and "sendto_ok ev"
    and "sequenceNumber (decode_Header (recvfrom packetSize (prior ev) d)) = 0"
  shows "g_latestSequenceNumber rrecv_init = 0
       \<and> acks (rrecv_step r ev) = acks r @ [0]
       \<and> fwrites (rrecv_step r ev) = fwrites r
       \<and> 0 \<notin> fst ` set (fwrites (rrecv_loop rrecv_init evs))"
proof -
  have a: "acks (rrecv_step r ev) = acks r @ [0]"
    using rrecv_step_acks [OF assms(1-3)] assms(4) by simp
  have w: "fwrites (rrecv_step r ev) = fwrites r"
    using assms by (simp add: rrecv_step_def recv_size_zero rrecv_deliver_def Let_def)
  obtain ws where "fwrites (rrecv_loop rrecv_init evs) = fwrites rrecv_init @ ws"
    "\<forall>w\<in>set ws. g_latestSequenceNumber rrecv_init < fst w"
    using rrecv_loop_writes by blast
  then have "0 \<notin> fst ` set (fwrites (rrecv_loop rrecv_init evs))"
    by (auto simp add: rrecv_init_def)
  with a w show ?thesis by (simp add: rrecv_init_def)
qed

text \<open>
  Claim C10, at a concrete delivery: a first packet numbered 0 is acknowledged and
  dropped, and the packet numbered 1 that follows it is written.
\<close>

theorem receiver_discards_sequence_zero_witness:
  "acks (rrecv_step rrecv_init (delivery (data_packet 0 [65] FALSE))) = [0]
   \<and> fwrites (rrecv_step rrecv_init (delivery (data_packet 0 [65] FALSE))) = []
   \<and> fwrites (rrecv_loop rrecv_init [delivery (data_packet 0 [65] FALSE), delivery (data_packet 1 [66] FALSE)]) = [(1, [66])]"
proof -
  have h: "sequenceNumber (decode_Header (recvfrom packetSize (prior (delivery (data_packet 0 [65] FALSE))) (data_packet 0 [65] FALSE))) = 0"
    unfolding data_packet_def
    by (subst rrecv_frame(1)) (simp_all add: delivery_def MAX_BUFFER_SIZE_def)
  have "recv (delivery (data_packet 0 [65] FALSE)) = RecvData (data_packet 0 [65] FALSE)"
    by (simp add: delivery_def)
  moreover have "sendto_ok (delivery (data_packet 0 [65] FALSE))" by (simp add: delivery_def)
  ultimately show ?thesis
    using receiver_discards_sequence_zero [of "delivery (data_packet 0 [65] FALSE)" "data_packet 0 [65] FALSE" rrecv_init
        "[delivery (data_packet 0 [65] FALSE), delivery (data_packet 1 [66] FALSE)]"] h
    by (simp add: data_packet_not_Nil rrecv_init_def rrecv_step_data_packet MAX_BUFFER_SIZE_def TRUE_def FALSE_def)
qed

text \<open>
  Claim C8 fails as stated: a datagram of one byte, shorter than the header, does not
  make the receiver exit. The header is read from the receive buffer as it stands (the
  byte received, then the previous content), the sequence number 5 found there is
  acknowledged and recorded, and the loop goes on.
\<close>
theorem short_datagram_counterexample:
  "length [5 :: byte] < HEADER_SIZE
   \<and> rrecv_step rrecv_init (delivery [5])
       = \<lparr>g_latestSequenceNumber = 5, fwrites = [(5, [])], acks = [5], rstatus = Running\<rparr>"
proof -
  have p: "recvfrom packetSize (\<lambda>i. 0) [5] = 5 # replicate 8203 0"
    by (simp add: recvfrom_def recv_size_def bytes_from_const packetSize_def MAX_BUFFER_SIZE_def HEADER_SIZE_def)
  have h: "decode_Header (5 # replicate 8203 0) = \<lparr>sequenceNumber = 5, messageLength = 0, lastPacket = 0\<rparr>"
    by (simp add: decode_Header_def load32_byte_zeros load32_zeros load8_zeros)
  show ?thesis
    by (simp add: rrecv_step_def delivery_def recv_size_zero p h rrecv_deliver_def rrecv_init_def
        HEADER_SIZE_def TRUE_def)
qed

lemma decode_short8:
  "decode_Header (recvfrom packetSize (\<lambda>i. 0) [1, 0, 0, 0, 255, 255, 255, 255])
     = \<lparr>sequenceNumber = 1, messageLength = 4294967295, lastPacket = 0\<rparr>"
proof -
  have p: "recvfrom packetSize (\<lambda>i. 0) [1, 0, 0, 0, 255, 255, 255, 255]
             = [1, 0, 0, 0, 255, 255, 255, 255] @ replicate 8196 0"
    by (simp add: recvfrom_def recv_size_def bytes_from_const packetSize_def MAX_BUFFER_SIZE_def HEADER_SIZE_def)
  show ?thesis
    unfolding p by (simp add: decode_Header_def load8_zeros)
qed

text \<open>
  Claim C8 as amended. For every received datagram of non-zero length, also one shorter
  than the header, the receiver makes no length check: it reads the header from its
  receive buffer and sends a data-ack for the sequence number found there. It then goes
  on as the fields found there say: when the message length is at most 8192 it stays in
  its loop, or leaves it by \<^verbatim>\<open>break\<close> on a new packet flagged last; when the message length
  is above 8192 it copies that many bytes out of its receive buffer, a read beyond the
  buffer. In no case does it exit on account of the datagram's length.
\<close>

theorem short_datagram_read_as_header:
  assumes "recv ev = RecvData d" and "d \<noteq> []" and "sendto_ok ev" and "rstatus r = Running"
    and "h = decode_Header (recvfrom packetSize (prior ev) d)"
  shows "acks (rrecv_step r ev) = acks r @ [sequenceNumber h]
       \<and> rstatus (rrecv_step r ev) =
           (if MAX_BUFFER_SIZE < unat (messageLength h) then Undefined
            else if sequenceNumber h \<le> g_latestSequenceNumber r then Running
            else if lastPacket h = TRUE then Finished
            else Running)"
  using assms rrecv_step_acks [OF assms(1-3), of r]
  by (simp add: rrecv_step_def recv_size_zero rrecv_deliver_def Let_def)

text \<open>
  Claim C8 as amended, at the datagram of one byte and at a datagram of eight bytes whose
  message length reads \<open>2 ^ 32 - 1\<close>.
\<close>

theorem short_datagram_read_as_header_witness:
  "acks (rrecv_step rrecv_init (delivery [5])) = [5]
   \<and> rstatus (rrecv_step rrecv_init (delivery [5])) = Running
   \<and> acks (rrecv_step rrecv_init (delivery [1, 0, 0, 0, 255, 255, 255, 255])) = [1]
   \<and> rstatus (rrecv_step rrecv_init (delivery [1, 0, 0, 0, 255, 255, 255, 255])) = Undefined"
proof -
  have p: "recvfrom packetSize (\<lambda>i. 0) [5] = 5 # replicate 8203 0"
    by (simp add: recvfrom_def recv_size_def bytes_from_const packetSize_def MAX_BUFFER_SIZE_def HEADER_SIZE_def)
  have h5: "decode_Header (recvfrom packetSize (\<lambda>i. 0) [5])
              = \<lparr>sequenceNumber = 5, messageLength = 0, lastPacket = 0\<rparr>"
    unfolding p by (simp add: decode_Header_def load32_byte_zeros load32_zeros load8_zeros)
  have a: "acks (rrecv_step rrecv_init (delivery [5])) = [5]
   \<and> rstatus (rrecv_step rrecv_init (delivery [5])) = Running"
    using short_datagram_read_as_header [of "delivery [5]" "[5]" rrecv_init, OF _ _ _ _ refl]
    by (simp add: delivery_def rrecv_init_def h5 MAX_BUFFER_SIZE_def TRUE_def)
  have b: "acks (rrecv_step rrecv_init (delivery [1, 0, 0, 0, 255, 255, 255, 255])) = [1]
   \<and> rstatus (rrecv_step rrecv_init (delivery [1, 0, 0, 0, 255, 255, 255, 255])) = Undefined"
    using short_datagram_read_as_header [of "delivery [1, 0, 0, 0, 255, 255, 255, 255]"
        "[1, 0, 0, 0, 255, 255, 255, 255]" rrecv_init, OF _ _ _ _ refl]
    by (simp add: delivery_def rrecv_init_def decode_short8 MAX_BUFFER_SIZE_def)
  from a b show ?thesis by blast
qed

lemma rrecv_loop_stopped: "rstatus r \<noteq> Running \<Longrightarrow> rrecv_loop r evs = r"
  by (cases evs) simp_all

lemma rrecv_step_fresh:
  assumes "recv ev = RecvData d" and "d \<noteq> []" and "sendto_ok ev"
    and "h = decode_Header (recvfrom packetSize (prior ev) d)"
    and "g_latestSequenceNumber r < sequenceNumber h"
    and "unat (messageLength h) \<le> MAX_BUFFER_SIZE"
  shows "fwrites (rrecv_step r ev) = fwrites r @
           [(sequenceNumber h, take (unat (messageLength h)) (drop HEADER_SIZE (recvfrom packetSize (prior ev) d)))]"
    and "rstatus (rrecv_step r ev) = Running \<Longrightarrow> g_latestSequenceNumber (rrecv_step r ev) = sequenceNumber h"
  using assms
  by (auto simp add: rrecv_step_def recv_size_zero rrecv_deliver_def Let_def not_le split: if_splits)

text \<open>
  Claim C5 fails as stated: after the packet numbered 7 has been accepted, a packet
  numbered 5 delivered twice is acknowledged twice and its payload is never written.
\<close>
theorem stale_duplicate_counterexample:
  "fwrites (rrecv_loop rrecv_init
      [delivery (data_packet 7 [65] FALSE), delivery (data_packet 5 [66] FALSE),
       delivery (data_packet 5 [66] FALSE)]) = [(7, [65])]
   \<and> acks (rrecv_loop rrecv_init
      [delivery (data_packet 7 [65] FALSE), delivery (data_packet 5 [66] FALSE),
       delivery (data_packet 5 [66] FALSE)]) = [7, 5, 5]"
  by (simp add: rrecv_init_def rrecv_step_data_packet MAX_BUFFER_SIZE_def TRUE_def FALSE_def)

text \<open>
  Claim C5 as amended. Let the running receiver read a datagram whose sequence number N is
  greater than the highest sequence number accepted so far (and whose message length fits
  the buffer). Then, whatever is delivered afterwards, the same packet again included, the
  output holds exactly one write under N, the payload of that datagram; and every reading
  of the datagram, in any state, sends the data-ack N.
\<close>

theorem fresh_packet_written_once:
  assumes "r = rrecv_loop rrecv_init evs0" and "rstatus r = Running"
    and "recv ev = RecvData d" and "d \<noteq> []" and "sendto_ok ev"
    and "h = decode_Header (recvfrom packetSize (prior ev) d)"
    and "g_latestSequenceNumber r < sequenceNumber h"
    and "unat (messageLength h) \<le> MAX_BUFFER_SIZE"
  shows "filter (\<lambda>w. fst w = sequenceNumber h) (fwrites (rrecv_loop rrecv_init (evs0 @ ev # evs)))
           = [(sequenceNumber h,
               take (unat (messageLength h)) (drop HEADER_SIZE (recvfrom packetSize (prior ev) d)))]
       \<and> acks (rrecv_step r' ev) = acks r' @ [sequenceNumber h]"
proof -
  let ?N = "sequenceNumber h"
  let ?w = "(?N, take (unat (messageLength h)) (drop HEADER_SIZE (recvfrom packetSize (prior ev) d)))"
  let ?r1 = "rrecv_step r ev"
  have old: "\<forall>w\<in>set (fwrites r). fst w \<le> g_latestSequenceNumber r"
    using rrecv_loop_inv [of rrecv_init evs0] assms(1,2) by (simp add: rrecv_init_def)
  have f0: "filter (\<lambda>w. fst w = ?N) (fwrites r) = []"
    using old assms(7) by (auto simp add: filter_empty_conv)
  have w1: "fwrites ?r1 = fwrites r @ [?w]"
    by (rule rrecv_step_fresh(1) [OF assms(3-8)])
  have split: "rrecv_loop rrecv_init (evs0 @ ev # evs) = rrecv_loop ?r1 evs"
    using assms(1,2) by (simp add: rrecv_loop_append)
  have "filter (\<lambda>w. fst w = ?N) (fwrites (rrecv_loop ?r1 evs)) = [?w]"
  proof (cases "rstatus ?r1 = Running")
    case False
    then show ?thesis using w1 f0 by (simp add: rrecv_loop_stopped)
  next
    case True
    then have l1: "g_latestSequenceNumber ?r1 = ?N"
      by (rule rrecv_step_fresh(2) [OF assms(3-8)])
    obtain ws where ws: "fwrites (rrecv_loop ?r1 evs) = fwrites ?r1 @ ws"
      "\<forall>w\<in>set ws. g_latestSequenceNumber ?r1 < fst w"
      using rrecv_loop_writes by blast
    have "filter (\<lambda>w. fst w = ?N) ws = []"
      using ws(2) l1 by (auto simp add: filter_empty_conv)
    then show ?thesis using ws(1) w1 f0 by simp
  qed
  moreover have "acks (rrecv_step r' ev) = acks r' @ [?N]"
    using rrecv_step_acks [OF assms(3-5)] assms(6) by simp
  ultimately show ?thesis using split by simp
qed

text \<open>Claim C5 as amended, at a packet numbered 5 delivered three times after a packet numbered 3.\<close>

theorem fresh_packet_written_once_witness:
  "filter (\<lambda>w. fst w = 5)
     (fwrites (rrecv_loop rrecv_init
        ([delivery (data_packet 3 [64] FALSE)] @ delivery (data_packet 5 [66] FALSE)
           # [delivery (data_packet 5 [66] FALSE), delivery (data_packet 5 [66] FALSE)])))
     = [(5, [66])]
   \<and> acks (rrecv_step rrecv_init (delivery (data_packet 5 [66] FALSE))) = [5]"
proof -
  let ?ev = "delivery (data_packet 5 [66] FALSE)"
  let ?h = "\<lparr>sequenceNumber = 5, messageLength = 1, lastPacket = FALSE\<rparr>"
  let ?r = "rrecv_loop rrecv_init [delivery (data_packet 3 [64] FALSE)]"
  have r: "?r = \<lparr>g_latestSequenceNumber = 3, fwrites = [(3, [64])], acks = [3], rstatus = Running\<rparr>"
    by (simp add: rrecv_init_def rrecv_step_data_packet MAX_BUFFER_SIZE_def TRUE_def FALSE_def)
  have h: "?h = decode_Header (recvfrom packetSize (prior ?ev) (data_packet 5 [66] FALSE))"
    unfolding data_packet_def
    by (subst rrecv_frame(1)) (simp_all add: delivery_def MAX_BUFFER_SIZE_def)
  have p: "take (unat (messageLength ?h)) (drop HEADER_SIZE (recvfrom packetSize (prior ?ev) (data_packet 5 [66] FALSE))) = [66]"
    using rrecv_frame(2) [of "[66]" ?h "\<lambda>i. 0" "\<lambda>i. 0"]
    by (simp add: data_packet_def delivery_def MAX_BUFFER_SIZE_def)
  have 1: "rstatus ?r = Running" and 2: "g_latestSequenceNumber ?r < sequenceNumber ?h"
    unfolding r by simp_all
  have 3: "recv ?ev = RecvData (data_packet 5 [66] FALSE)" and 4: "sendto_ok ?ev"
    by (simp_all add: delivery_def)
  have 5: "unat (messageLength ?h) \<le> MAX_BUFFER_SIZE" by (simp add: MAX_BUFFER_SIZE_def)
  show ?thesis
    using fresh_packet_written_once [OF refl 1 3 data_packet_not_Nil 4 h 2 5,
        of "[delivery (data_packet 5 [66] FALSE), delivery (data_packet 5 [66] FALSE)]" rrecv_init] p
    by (simp add: rrecv_init_def)
qed

section \<open>The send loop\<close>

lemma length_rsend_read:
  "length (packet s) = HEADER_SIZE + MAX_BUFFER_SIZE \<Longrightarrow>
   length (packet (rsend_read src n pad s)) = HEADER_SIZE + MAX_BUFFER_SIZE"
  by (simp add: rsend_read_def Let_def length_encode_Header)

lemma checkAck_packet: "packet (checkAck s b ev) = packet s"
  by (simp add: checkAck_def Let_def split: recv_result.split)

lemma checkAck_sent: "sent (checkAck s b ev) = sent s"
  by (simp add: checkAck_def Let_def split: recv_result.split)

lemma rsend_read_sent: "sent (rsend_read src n pad s) = sent s"
  by (simp add: rsend_read_def Let_def)

lemma sender_inv_init: "sender_inv (rsend_init u isn)"
  by (simp add: sender_inv_def rsend_init_def length_bytes_from)

lemma sender_inv_step: "sender_inv s \<Longrightarrow> sender_inv (rsend_step src n pad s ev)"
  by (simp add: sender_inv_def rsend_step_def Let_def checkAck_packet checkAck_sent
      length_rsend_read rsend_read_sent)

lemma sender_inv_loop: "sender_inv s \<Longrightarrow> sender_inv (rsend_loop src n pad s evs)"
proof (induction evs arbitrary: s)
  case Nil
  then show ?case by (simp add: sender_inv_def)
next
  case (Cons ev evs)
  then show ?case using sender_inv_step [of s src n pad ev] by (simp add: sender_inv_def)
qed

lemma checkAck_delivery_store32:
  "checkAck s b (delivery (store32 a)) =
     (if a \<noteq> g_sequenceNumber s
      then s\<lparr>timeout := timeout s * 2, retries := retries s + 1\<rparr>
      else s\<lparr>totalBytesSent := totalBytesSent s + (b - HEADER_SIZE),
             g_sequenceNumber := g_sequenceNumber s + 1,
             retries := 0,
             timeout := DEFAULT_TIMEOUT\<rparr>)"
proof -
  have "recvfrom MAX_ACK_SIZE (\<lambda>i. 0) (store32 a) = store32 a @ []"
    by (simp add: recvfrom_def recv_size_def MAX_ACK_SIZE_def length_store32 bytes_from_def)
  then have "load32 (recvfrom MAX_ACK_SIZE (\<lambda>i. 0) (store32 a)) = a"
    by (simp only: load32_store32)
  then show ?thesis by (simp add: checkAck_def delivery_def Let_def)
qed

lemma rsend_read_init:
  "rsend_read src n (\<lambda>i. 0) (rsend_init (\<lambda>i. 0) isn) =
     (rsend_init (\<lambda>i. 0) isn)\<lparr>file_pos := length (take MAX_BUFFER_SIZE src),
        packet := data_packet isn (take MAX_BUFFER_SIZE src)
                    (if MAX_BUFFER_SIZE > n then TRUE else FALSE)\<rparr>"
proof -
  have "drop (HEADER_SIZE + length (take MAX_BUFFER_SIZE src)) (bytes_from (\<lambda>i. 0) 0 (MAX_BUFFER_SIZE + HEADER_SIZE))
          = replicate (MAX_BUFFER_SIZE - length (take MAX_BUFFER_SIZE src)) 0"
    by (simp add: bytes_from_const)
  then show ?thesis
    by (simp add: rsend_read_def rsend_init_def Let_def data_packet_def)
qed

lemma length_data_packet:
  "length payload \<le> MAX_BUFFER_SIZE \<Longrightarrow> length (data_packet n payload l) = HEADER_SIZE + MAX_BUFFER_SIZE"
  by (simp add: data_packet_def length_encode_Header)

lemma rsend_step_init:
  "rsend_step src n (\<lambda>i. 0) (rsend_init (\<lambda>i. 0) isn) (delivery d) =
     checkAck ((rsend_init (\<lambda>i. 0) isn)\<lparr>file_pos := length (take MAX_BUFFER_SIZE src),
        packet := data_packet isn (take MAX_BUFFER_SIZE src) (if MAX_BUFFER_SIZE > n then TRUE else FALSE),
        sent := [data_packet isn (take MAX_BUFFER_SIZE src) (if MAX_BUFFER_SIZE > n then TRUE else FALSE)]\<rparr>)
       (HEADER_SIZE + MAX_BUFFER_SIZE) (delivery d)"
proof -
  have 0: "retries (rsend_init (\<lambda>i. 0) isn) = 0" "sent (rsend_init (\<lambda>i. 0) isn) = []"
    by (simp_all add: rsend_init_def)
  have 1: "sockopt_ok (delivery d)" "sendto_ok (delivery d)"
    by (simp_all add: delivery_def)
  show ?thesis
    unfolding rsend_step_def
    by (simp add: 0 1 rsend_read_init length_data_packet Let_def)
qed

text \<open>
  Claim C1, at a source of two bytes and the target 1 on a network that loses nothing.
  The sender reads a whole chunk and sends one packet with both bytes, flagged last; the
  receiver acknowledges it (the ack the sender consumes) and writes both bytes, where the
  first \<open>min L t\<close> bytes of the source are one byte.
\<close>
theorem round_trip_writes_beyond_target:
  "sent (rsend_data [1, 2] 1 (\<lambda>i. 0) (\<lambda>i. 0) 1 [delivery (store32 1)]) = [data_packet 1 [1, 2] TRUE]
   \<and> sstatus (rsend_data [1, 2] 1 (\<lambda>i. 0) (\<lambda>i. 0) 1 [delivery (store32 1)]) = Finished
   \<and> acks (rrecv_loop rrecv_init [delivery (data_packet 1 [1, 2] TRUE)]) = [1]
   \<and> rstatus (rrecv_loop rrecv_init [delivery (data_packet 1 [1, 2] TRUE)]) = Finished
   \<and> file_content (rrecv_loop rrecv_init [delivery (data_packet 1 [1, 2] TRUE)]) = [1, 2]
   \<and> take (min (length [1, 2 :: byte]) 1) [1, 2 :: byte] = [1]"
proof -
  have i: "sstatus (rsend_init (\<lambda>i. 0) 1) = Running" "totalBytesSent (rsend_init (\<lambda>i. 0) 1) = 0"
    "g_sequenceNumber (rsend_init (\<lambda>i. 0) 1) = 1"
    by (simp_all add: rsend_init_def)
  have s: "rsend_data [1, 2] 1 (\<lambda>i. 0) (\<lambda>i. 0) 1 [delivery (store32 1)] =
     \<lparr>g_sequenceNumber = 2, totalBytesSent = MAX_BUFFER_SIZE, file_pos = 2,
      packet = data_packet 1 [1, 2] TRUE, timeout = DEFAULT_TIMEOUT, retries = 0,
      sent = [data_packet 1 [1, 2] TRUE], sstatus = Finished\<rparr>"
    unfolding rsend_data_def
    apply (simp add: i rsend_step_init checkAck_delivery_store32)
    apply (simp add: rsend_init_def MAX_BUFFER_SIZE_def)
    done
  have v: "rrecv_loop rrecv_init [delivery (data_packet 1 [1, 2] TRUE)] =
     \<lparr>g_latestSequenceNumber = 0, fwrites = [(1, [1, 2])], acks = [1], rstatus = Finished\<rparr>"
    by (simp add: rrecv_init_def rrecv_step_data_packet MAX_BUFFER_SIZE_def)
  show ?thesis unfolding s v by (simp add: file_content_def)
qed

lemma rsend_step_sent:
  assumes "sockopt_ok ev" and "sendto_ok ev"
  shows "sent (rsend_step src n pad s ev) =
           sent s @ [take (HEADER_SIZE + MAX_BUFFER_SIZE)
                      (packet (if retries s = 0 then rsend_read src n pad s else s))]"
  using assms by (simp add: rsend_step_def Let_def checkAck_sent rsend_read_sent)

lemma rsend_read_packet:
  "packet (rsend_read src n pad s) =
     encode_Header \<lparr>sequenceNumber = g_sequenceNumber s,
                    messageLength = of_nat (length (take MAX_BUFFER_SIZE (drop (file_pos s) src))),
                    lastPacket = (if totalBytesSent s + MAX_BUFFER_SIZE > n then TRUE else FALSE)\<rparr> pad
       @ take MAX_BUFFER_SIZE (drop (file_pos s) src)
       @ drop (HEADER_SIZE + length (take MAX_BUFFER_SIZE (drop (file_pos s) src))) (packet s)"
  by (simp add: rsend_read_def Let_def)

text \<open>
  Claim C9. Every datagram the sender hands to the transport has
  \<^verbatim>\<open>HEADER_SIZE + MAX_BUFFER_SIZE\<close> bytes. For the datagram \<open>d\<close> sent by an iteration that
  starts in a reachable state \<open>s\<close>: when a chunk is read (\<open>retries s = 0\<close>) its message
  length is the number of bytes read, and the bytes of \<open>d\<close> behind the header and the
  message are those the send buffer \<open>packet s\<close> held before the iteration.
\<close>
theorem datagram_size_is_fixed:
  assumes "s = rsend_loop src n pad (rsend_init u isn) evs0"
    and "sockopt_ok ev" and "sendto_ok ev"
    and "d = last (sent (rsend_step src n pad s ev))"
  shows "(\<forall>x\<in>set (sent (rsend_data src m pad u isn evs)). length x = HEADER_SIZE + MAX_BUFFER_SIZE)
       \<and> length d = HEADER_SIZE + MAX_BUFFER_SIZE
       \<and> (retries s = 0 \<longrightarrow>
            unat (messageLength (decode_Header d)) = length (take MAX_BUFFER_SIZE (drop (file_pos s) src)))
       \<and> drop (HEADER_SIZE + unat (messageLength (decode_Header d))) d
           = drop (HEADER_SIZE + unat (messageLength (decode_Header d))) (packet s)"
proof -
  have "sender_inv (rsend_data src m pad u isn evs)"
    unfolding rsend_data_def by (rule sender_inv_loop [OF sender_inv_init])
  then have a: "\<forall>x\<in>set (sent (rsend_data src m pad u isn evs)). length x = HEADER_SIZE + MAX_BUFFER_SIZE"
    by (simp add: sender_inv_def list_all_iff)
  have inv: "sender_inv s"
    unfolding assms(1) by (rule sender_inv_loop [OF sender_inv_init])
  then have len: "length (packet s) = HEADER_SIZE + MAX_BUFFER_SIZE"
    by (simp add: sender_inv_def)
  let ?s1 = "if retries s = 0 then rsend_read src n pad s else s"
  have len1: "length (packet ?s1) = HEADER_SIZE + MAX_BUFFER_SIZE"
    using len length_rsend_read by simp
  have d: "d = packet ?s1"
    using assms(4) rsend_step_sent [OF assms(2,3), of src n pad s] len1 by simp
  have b: "length d = HEADER_SIZE + MAX_BUFFER_SIZE"
    using d len1 by simp
  show ?thesis
  proof (cases "retries s = 0")
    case False
    then have "d = packet s" using d by simp
    then show ?thesis using a b False by simp
  next
    case True
    let ?chunk = "take MAX_BUFFER_SIZE (drop (file_pos s) src)"
    let ?h = "\<lparr>sequenceNumber = g_sequenceNumber s, messageLength = of_nat (length ?chunk),
               lastPacket = (if totalBytesSent s + MAX_BUFFER_SIZE > n then TRUE else FALSE)\<rparr>"
    have dd: "d = encode_Header ?h pad @ ?chunk @ drop (HEADER_SIZE + length ?chunk) (packet s)"
    proof -
      have "d = packet (rsend_read src n pad s)" using d True by simp
      then show ?thesis by (simp only: rsend_read_packet)
    qed
    have h: "decode_Header d = ?h"
      unfolding dd by (rule decode_encode_Header)
    have "length ?chunk \<le> MAX_BUFFER_SIZE" by simp
    then have ml: "unat (messageLength (decode_Header d)) = length ?chunk"
      unfolding h by (simp add: unat_of_nat_payload)
    have "drop (HEADER_SIZE + length ?chunk) d = drop (HEADER_SIZE + length ?chunk) (packet s)"
      unfolding dd by (simp add: length_encode_Header)
    then show ?thesis using a b ml by simp
  qed
qed

text \<open>Claim C9, at the first packet of a source of two bytes.\<close>

theorem datagram_size_is_fixed_witness:
  "map length (sent (rsend_data [1, 2] 1 (\<lambda>i. 0) (\<lambda>i. 0) 1 [delivery (store32 1)]))
     = [HEADER_SIZE + MAX_BUFFER_SIZE]
   \<and> length (last (sent (rsend_step [1, 2] 1 (\<lambda>i. 0) (rsend_init (\<lambda>i. 0) 1) (delivery (store32 1)))))
       = HEADER_SIZE + MAX_BUFFER_SIZE
   \<and> unat (messageLength (decode_Header
        (last (sent (rsend_step [1, 2] 1 (\<lambda>i. 0) (rsend_init (\<lambda>i. 0) 1) (delivery (store32 1))))))) = 2"
proof -
  have s: "rsend_init (\<lambda>i. 0) 1 = rsend_loop [1, 2] 1 (\<lambda>i. 0) (rsend_init (\<lambda>i. 0) 1) []"
    by (simp add: rsend_init_def)
  have e: "sockopt_ok (delivery (store32 1))" "sendto_ok (delivery (store32 1))"
    by (simp_all add: delivery_def)
  have r: "retries (rsend_init (\<lambda>i. 0) 1) = 0" "file_pos (rsend_init (\<lambda>i. 0) 1) = 0"
    by (simp_all add: rsend_init_def)
  have i: "sstatus (rsend_init (\<lambda>i. 0) 1) = Running" "totalBytesSent (rsend_init (\<lambda>i. 0) 1) = 0"
    "g_sequenceNumber (rsend_init (\<lambda>i. 0) 1) = 1"
    by (simp_all add: rsend_init_def)
  have n: "sent (rsend_data [1, 2] 1 (\<lambda>i. 0) (\<lambda>i. 0) 1 [delivery (store32 1)])
             = [data_packet 1 [1, 2] TRUE]"
    unfolding rsend_data_def
    by (simp add: i rsend_step_init checkAck_delivery_store32) (simp add: MAX_BUFFER_SIZE_def)
  show ?thesis
    using datagram_size_is_fixed [OF s e refl, of 1 "[delivery (store32 1)]"] r
    unfolding n by (simp add: MAX_BUFFER_SIZE_def)
qed


lemma rsend_step_init_timeout:
  "rsend_step src n (\<lambda>i. 0) (rsend_init (\<lambda>i. 0) isn) ack_timeout =
     checkAck ((rsend_init (\<lambda>i. 0) isn)\<lparr>file_pos := length (take MAX_BUFFER_SIZE src),
        packet := data_packet isn (take MAX_BUFFER_SIZE src) (if MAX_BUFFER_SIZE > n then TRUE else FALSE),
        sent := [data_packet isn (take MAX_BUFFER_SIZE src) (if MAX_BUFFER_SIZE > n then TRUE else FALSE)]\<rparr>)
       (HEADER_SIZE + MAX_BUFFER_SIZE) ack_timeout"
proof -
  have 0: "retries (rsend_init (\<lambda>i. 0) isn) = 0" "sent (rsend_init (\<lambda>i. 0) isn) = []"
    by (simp_all add: rsend_init_def)
  have 1: "sockopt_ok ack_timeout" "sendto_ok ack_timeout"
    by (simp_all add: ack_timeout_def)
  show ?thesis
    unfolding rsend_step_def
    by (simp add: 0 1 rsend_read_init length_data_packet Let_def)
qed

lemma checkAck_timeout:
  "checkAck s b ack_timeout =
     (if retries s < MAX_RETRIES
      then s\<lparr>timeout := timeout s * 2, retries := retries s + 1\<rparr>
      else s\<lparr>sstatus := Exited\<rparr>)"
  by (simp add: checkAck_def ack_timeout_def)



lemma timeout_first:
  "rsend_step src n (\<lambda>i. 0) (rsend_init (\<lambda>i. 0) isn) ack_timeout
     = \<lparr>g_sequenceNumber = isn, totalBytesSent = 0, file_pos = length (take MAX_BUFFER_SIZE src),
        packet = data_packet isn (take MAX_BUFFER_SIZE src) (if MAX_BUFFER_SIZE > n then TRUE else FALSE),
        timeout = DEFAULT_TIMEOUT * 2, retries = 1,
        sent = [data_packet isn (take MAX_BUFFER_SIZE src) (if MAX_BUFFER_SIZE > n then TRUE else FALSE)],
        sstatus = Running\<rparr>"
  by (simp add: rsend_step_init_timeout checkAck_timeout)
     (simp add: rsend_init_def MAX_RETRIES_def)


lemma decode_data_packet:
  "decode_Header (data_packet n payload l) =
     \<lparr>sequenceNumber = n, messageLength = of_nat (length payload), lastPacket = l\<rparr>"
  unfolding data_packet_def by (rule decode_encode_Header)

text \<open>
  Claim C3, at a source of 8192 bytes and the target 8192. The sender sends one packet,
  whose \<^verbatim>\<open>lastPacket\<close> is \<^verbatim>\<open>FALSE\<close>, and leaves its loop; the receiver has written the
  payload and is still in its loop.
\<close>
theorem exact_multiple_has_no_last_packet:
  "rsend_data (replicate 8192 0) 8192 (\<lambda>i. 0) (\<lambda>i. 0) 1 [delivery (store32 1)]
     = \<lparr>g_sequenceNumber = 2, totalBytesSent = 8192, file_pos = 8192,
        packet = data_packet 1 (replicate 8192 0) FALSE,
        timeout = DEFAULT_TIMEOUT, retries = 0,
        sent = [data_packet 1 (replicate 8192 0) FALSE], sstatus = Finished\<rparr>
   \<and> map (\<lambda>d. lastPacket (decode_Header d)) [data_packet 1 (replicate 8192 0) FALSE] = [FALSE]
   \<and> FALSE \<noteq> TRUE
   \<and> rrecv_loop rrecv_init [delivery (data_packet 1 (replicate 8192 0) FALSE)]
     = \<lparr>g_latestSequenceNumber = 1, fwrites = [(1, replicate 8192 0)], acks = [1], rstatus = Running\<rparr>"
proof -
  have i: "sstatus (rsend_init (\<lambda>i. 0) 1) = Running" "totalBytesSent (rsend_init (\<lambda>i. 0) 1) = 0"
    "g_sequenceNumber (rsend_init (\<lambda>i. 0) 1) = 1"
    by (simp_all add: rsend_init_def)
  have s: "rsend_data (replicate 8192 0) 8192 (\<lambda>i. 0) (\<lambda>i. 0) 1 [delivery (store32 1)]
     = \<lparr>g_sequenceNumber = 2, totalBytesSent = 8192, file_pos = 8192,
        packet = data_packet 1 (replicate 8192 0) FALSE,
        timeout = DEFAULT_TIMEOUT, retries = 0,
        sent = [data_packet 1 (replicate 8192 0) FALSE], sstatus = Finished\<rparr>"
    unfolding rsend_data_def
    apply (simp add: i rsend_step_init checkAck_delivery_store32)
    apply (simp add: rsend_init_def MAX_BUFFER_SIZE_def HEADER_SIZE_def)
    done
  have v: "rrecv_loop rrecv_init [delivery (data_packet 1 (replicate 8192 0) FALSE)]
     = \<lparr>g_latestSequenceNumber = 1, fwrites = [(1, replicate 8192 0)], acks = [1], rstatus = Running\<rparr>"
    by (simp add: rrecv_init_def rrecv_step_data_packet MAX_BUFFER_SIZE_def TRUE_def FALSE_def)
  show ?thesis unfolding s v by (simp add: decode_data_packet TRUE_def FALSE_def)
qed

lemma rsend_loop_zero: "rsend_loop src 0 pad (rsend_init u isn) evs = (rsend_init u isn)\<lparr>sstatus := Finished\<rparr>"
  by (cases evs) (simp_all add: rsend_init_def)

lemma rrecv_loop_nothing_delivered:
  assumes "\<forall>ev\<in>set evs. \<forall>d. recv ev = RecvData d \<longrightarrow> d = []"
  shows "fwrites (rrecv_loop r evs) = fwrites r"
  using assms
proof (induction evs arbitrary: r)
  case Nil
  show ?case by simp
next
  case (Cons ev evs)
  have "fwrites (rrecv_step r ev) = fwrites r"
    using Cons.prems by (cases "recv ev") (auto simp add: rrecv_step_def recv_size_zero)
  then show ?case using Cons by simp
qed

text \<open>
  Claim C6 fails as stated: with the target 0 the sender leaves its loop without having
  sent a data packet.
\<close>
theorem zero_target_counterexample:
  "sent (rsend_data [1, 2] 0 (\<lambda>i. 0) (\<lambda>i. 0) 1 [delivery (store32 1)]) = []
   \<and> sstatus (rsend_data [1, 2] 0 (\<lambda>i. 0) (\<lambda>i. 0) 1 [delivery (store32 1)]) = Finished"
  by (simp add: rsend_data_def rsend_loop_zero rsend_init_def)

text \<open>
  Claim C6 as amended. With the target 0 the send loop is not entered: the sender sends no
  data packet. A receiver to which no datagram of non-zero length is delivered writes
  nothing: its output file is empty.
\<close>

theorem zero_target_sends_nothing:
  assumes "\<forall>ev\<in>set revs. \<forall>d. recv ev = RecvData d \<longrightarrow> d = []"
  shows "rsend_data src 0 pad u isn evs = (rsend_init u isn)\<lparr>sstatus := Finished\<rparr>
       \<and> sent (rsend_data src 0 pad u isn evs) = []
       \<and> file_content (rrecv_loop rrecv_init revs) = []"
proof -
  have "rsend_data src 0 pad u isn evs = (rsend_init u isn)\<lparr>sstatus := Finished\<rparr>"
    by (simp add: rsend_data_def rsend_loop_zero)
  moreover have "sent ((rsend_init u isn)\<lparr>sstatus := Finished\<rparr>) = []"
    by (simp add: rsend_init_def)
  moreover have "file_content (rrecv_loop rrecv_init revs) = []"
    using rrecv_loop_nothing_delivered [OF assms, of rrecv_init]
    by (simp add: file_content_def rrecv_init_def)
  ultimately show ?thesis by simp
qed

text \<open>Claim C6 as amended, at a receiver whose only receive runs into the timeout.\<close>

theorem zero_target_sends_nothing_witness:
  "sent (rsend_data [1, 2] 0 (\<lambda>i. 0) (\<lambda>i. 0) 1 [delivery (store32 1)]) = []
   \<and> file_content (rrecv_loop rrecv_init [ack_timeout]) = []"
proof -
  have "\<forall>ev\<in>set [ack_timeout]. \<forall>d. recv ev = RecvData d \<longrightarrow> d = []"
    by (simp add: ack_timeout_def)
  from zero_target_sends_nothing [OF this, of "[1, 2]" "\<lambda>i. 0" "\<lambda>i. 0" 1 "[delivery (store32 1)]"]
  show ?thesis by blast
qed

section \<open>The handshake\<close>

lemma load32_recvfrom_store32: "load32 (recvfrom 4 u (store32 a)) = a"
proof -
  have "recvfrom 4 u (store32 a) = store32 a @ []"
    by (simp add: recvfrom_def recv_size_def length_store32 bytes_from_def)
  then show ?thesis by (simp only: load32_store32)
qed

lemma decode_recvfrom_SynAck:
  "decode_SynAck (recvfrom 8 u (encode_SynAck sa)) = sa"
proof -
  have l: "length (encode_SynAck sa) = 8" by (simp add: encode_SynAck_def length_store32)
  have "recvfrom 8 u (encode_SynAck sa) = encode_SynAck sa"
    by (simp add: recvfrom_def recv_size_def l bytes_from_def)
  moreover have "load32 (encode_SynAck sa) = synack_sequenceNumber sa"
    by (simp add: encode_SynAck_def load32_store32)
  moreover have "load32 (drop 4 (encode_SynAck sa)) = synack_ackNumber sa"
    using load32_store32 [of "synack_ackNumber sa" "[]"] by (simp add: encode_SynAck_def length_store32)
  ultimately show ?thesis by (simp add: decode_SynAck_def)
qed

lemma length_encode_SynAck: "length (encode_SynAck sa) = 8"
  by (simp add: encode_SynAck_def length_store32)

text \<open>The exchange without loss, for the initial sequence numbers \<open>a\<close> and \<open>b\<close>.\<close>

lemma initiator_no_loss:
  "sender_establish_connection initiator_init
     [handshake_event a (RecvData (encode_SynAck \<lparr>synack_sequenceNumber = b, synack_ackNumber = a + 1\<rparr>))]
   = \<lparr>i_sequenceNumber = a, i_timeout = SYN_ACK_DEFAULT_TIMEOUT_MILLISEC,
      i_sent = [store32 a, store32 (b + 1)], i_status = Finished\<rparr>"
  by (simp add: handshake_event_def initiator_init_def recv_size_def SYNACK_SIZE_def
      length_encode_SynAck decode_recvfrom_SynAck)

lemma responder_no_loss:
  "receiver_establish_connection responder_init
     [handshake_event b (RecvData (store32 a)), handshake_event b (RecvData (store32 (b + 1)))]
   = \<lparr>r_timeout = SYN_ACK_DEFAULT_TIMEOUT_MILLISEC,
      r_sent = [encode_SynAck \<lparr>synack_sequenceNumber = b, synack_ackNumber = a + 1\<rparr>],
      r_status = (if b = a then Finished else Running)\<rparr>"
  by (simp add: handshake_event_def responder_init_def recv_size_def SYN_SIZE_def ACK_SIZE_def
      length_store32 load32_recvfrom_store32)

text \<open>
  With a ceiling of 1600000 in place of 1600, the update of the handshake loops is
  \<open>min (old * 2) ceiling\<close> on every value reached from the default 100000.
\<close>

lemma backoff_to_agrees_with_min:
  "t \<in> {100000, 200000, 400000, 800000, 1600000} \<Longrightarrow> backoff_to 1600000 t = min (t * 2) 1600000"
  by (auto simp add: backoff_to_def)

lemma backoff_is_identity_from_default:
  "SYN_ACK_DEFAULT_TIMEOUT_MILLISEC \<le> t \<Longrightarrow> backoff t = t"
  by (simp add: backoff_def backoff_to_def SYN_ACK_DEFAULT_TIMEOUT_MILLISEC_def
      SYN_ACK_MAX_TIMEOUT_MILLISEC_def)

lemma rrecv_enters_with_init:
  "snd (rrecv hs_evs evs) = None \<or> snd (rrecv hs_evs evs) = Some (rrecv_loop rrecv_init evs)"
  by (simp add: rrecv_def Let_def)

text \<open>
  Claim C2, at the initial sequence numbers 1 (initiator) and 2 (responder) with no packet
  lost. The initiator sends Syn 1, receives the SynAck (2, 2), sends the Ack 3 and returns;
  the responder compares the Ack with \<^verbatim>\<open>syn_ack.ackNumber = 2\<close>, does not accept it and stays
  in its loop.
\<close>
theorem handshake_ack_rejected:
  "i_status (sender_establish_connection initiator_init
     [handshake_event 1 (RecvData (encode_SynAck \<lparr>synack_sequenceNumber = 2, synack_ackNumber = 1 + 1\<rparr>))])
     = Finished
   \<and> i_sent (sender_establish_connection initiator_init
     [handshake_event 1 (RecvData (encode_SynAck \<lparr>synack_sequenceNumber = 2, synack_ackNumber = 1 + 1\<rparr>))])
     = [store32 1, store32 (2 + 1)]
   \<and> r_sent (receiver_establish_connection responder_init
     [handshake_event 2 (RecvData (store32 1)), handshake_event 2 (RecvData (store32 (2 + 1)))])
     = [encode_SynAck \<lparr>synack_sequenceNumber = 2, synack_ackNumber = 1 + 1\<rparr>]
   \<and> r_status (receiver_establish_connection responder_init
     [handshake_event 2 (RecvData (store32 1)), handshake_event 2 (RecvData (store32 (2 + 1)))])
     = Running"
  unfolding initiator_no_loss responder_no_loss by simp

text \<open>
  Claim C7, at one receive timeout in each of the three handshake loops: the timeout is
  still 100000, above the ceiling 1600, where \<open>min (old * 2) ceiling\<close> is 1600.
\<close>
theorem handshake_timeout_not_doubled:
  "i_timeout (sender_establish_connection initiator_init [handshake_event 1 RecvTimeout]) = 100000
   \<and> r_timeout (receiver_establish_connection responder_init [handshake_event 1 RecvTimeout]) = 100000
   \<and> r_timeout (receiver_establish_connection responder_init
        [handshake_event 1 (RecvData (store32 1)), handshake_event 1 RecvTimeout]) = 100000
   \<and> min (SYN_ACK_DEFAULT_TIMEOUT_MILLISEC * 2) SYN_ACK_MAX_TIMEOUT_MILLISEC = 1600"
  by (simp add: handshake_event_def initiator_init_def responder_init_def backoff_def backoff_to_def
      SYN_ACK_DEFAULT_TIMEOUT_MILLISEC_def SYN_ACK_MAX_TIMEOUT_MILLISEC_def
      recv_size_def SYN_SIZE_def length_store32)

section \<open>The retry ceiling\<close>




lemma retry_inv_cong:
  "retries s' = retries s \<Longrightarrow> timeout s' = timeout s \<Longrightarrow> retry_inv s' = retry_inv s"
  by (simp add: retry_inv_def)















end
